theory Spec2Isabelle
  imports Main "HOL-Library.Multiset" "HOL-Library.Sublist"
begin

section \<open>Data model (types.ts)\<close>

text \<open>
  The interfaces of the type module become records. A TypeScript \<open>number\<close> that holds
  an identifier, a count or a position is an \<open>int\<close>; \<open>string | null\<close> and an optional
  string field are \<open>string option\<close> (\<open>None\<close> for \<open>null\<close> and \<open>undefined\<close>).
  Field names shared by several interfaces are written qualified
  (\<open>F1Driver.team_name\<close>, \<open>F1Team.team_name\<close>).
  The timing and speed-trap fields of a lap are floating-point measurements that no
  function of the service layer reads; they live in the extension slot of the
  record, so the lap functions are stated over \<open>'a F1Lap_scheme\<close>.
\<close>

record F1Lap =
  date_start :: string
  driver_number :: int
  is_pit_out_lap :: bool
  lap_number :: int
  meeting_key :: int
  session_key :: int

record F1Session =
  circuit_key :: int
  circuit_short_name :: string
  country_code :: string
  country_name :: string
  date_end :: string
  date_start :: string
  gmt_offset :: string
  location :: string
  meeting_key :: int
  session_key :: int
  session_name :: string
  session_type :: string
  year :: int

record F1Driver =
  broadcast_name :: string
  country_code :: "string option"
  driver_number :: int
  first_name :: string
  full_name :: string
  headshot_url :: "string option"
  last_name :: string
  meeting_key :: int
  name_acronym :: string
  session_key :: int
  team_colour :: "string option"
  team_name :: "string option"

record F1Team =
  team_name :: string
  team_colour :: "string option"
  drivers :: "F1Driver list"
  country_codes :: "string list"

datatype DriverSortOption = SortName | SortTeam | SortDriverNumber | SortCountry

datatype SortOrder = Asc | Desc

record SortConfig =
  sort_option :: DriverSortOption
  order :: SortOrder

record NavigationResult =
  previous :: "F1Driver option"
  "next" :: "F1Driver option"

text \<open>
  What a promise can reject with: the failure of the HTTP request
  (network, timeout, non-2xx status), and an \<open>Error\<close> object thrown by the service
  layer itself, with its message. A promise is a value of \<open>error + 'a\<close>.
\<close>

datatype error = RemoteUnavailable | Failure string

section \<open>JavaScript built-ins the service layer calls\<close>

text \<open>
  \<open>a || b\<close> on a possibly missing string: \<open>null\<close>, \<open>undefined\<close> and the empty string
  are the falsy values.
\<close>

definition or_else :: "string option \<Rightarrow> string \<Rightarrow> string" where
  "or_else v d = (case v of None \<Rightarrow> d | Some s \<Rightarrow> if s = [] then d else s)"

text \<open>\<open>String.prototype.split\<close> with a one-character separator, and \<open>Array.prototype.pop\<close>.\<close>

fun split :: "char \<Rightarrow> string \<Rightarrow> string list" where
  "split c [] = [[]]"
| "split c (x # xs) =
     (if x = c then [] # split c xs
      else (case split c xs of [] \<Rightarrow> [[x]] | t # ts \<Rightarrow> (x # t) # ts))"

definition pop :: "'a list \<Rightarrow> 'a option" where
  "pop xs = (case xs of [] \<Rightarrow> None | _ # _ \<Rightarrow> Some (last xs))"

text \<open>
  Case conversion, on the ASCII letters (a \<open>char\<close> is a byte; other bytes are left
  as they are).
\<close>

definition lower_letters :: string where
  "lower_letters = ''abcdefghijklmnopqrstuvwxyz''"

definition upper_letters :: string where
  "upper_letters = ''ABCDEFGHIJKLMNOPQRSTUVWXYZ''"

definition toUpperCase :: "string \<Rightarrow> string" where
  "toUpperCase s =
     map (\<lambda>c. case map_of (zip lower_letters upper_letters) c of None \<Rightarrow> c | Some u \<Rightarrow> u) s"

definition toLowerCase :: "string \<Rightarrow> string" where
  "toLowerCase s =
     map (\<lambda>c. case map_of (zip upper_letters lower_letters) c of None \<Rightarrow> c | Some l \<Rightarrow> l) s"

text \<open>\<open>String.prototype.includes\<close>: the argument occurs as a contiguous substring.\<close>

fun startsWith :: "string \<Rightarrow> string \<Rightarrow> bool" where
  "startsWith s [] = True"
| "startsWith [] (q # qs) = False"
| "startsWith (x # xs) (q # qs) = (x = q \<and> startsWith xs qs)"

fun includes_str :: "string \<Rightarrow> string \<Rightarrow> bool" where
  "includes_str [] q = (q = [])"
| "includes_str (x # xs) q = (startsWith (x # xs) q \<or> includes_str xs q)"

text \<open>
  \<open>Array.prototype.sort\<close> with a comparator. The language standard makes the sort
  stable and places \<open>a\<close> before \<open>b\<close> when the comparator is negative; a stable
  insertion sort is the model. The comparator returns a number, here an \<open>int\<close>.
\<close>

fun insort_by :: "('a \<Rightarrow> 'a \<Rightarrow> int) \<Rightarrow> 'a \<Rightarrow> 'a list \<Rightarrow> 'a list" where
  "insort_by cmp x [] = [x]"
| "insort_by cmp x (y # ys) =
     (if cmp x y \<le> 0 then x # y # ys else y # insort_by cmp x ys)"

definition array_sort :: "('a \<Rightarrow> 'a \<Rightarrow> int) \<Rightarrow> 'a list \<Rightarrow> 'a list" where
  "array_sort cmp xs = foldr (insort_by cmp) xs []"

text \<open>
  \<open>Array.prototype.findIndex\<close> (\<open>-1\<close> when no element satisfies the predicate),
  reading an array at an index (\<open>undefined\<close>, here \<open>None\<close>, out of range), and
  \<open>slice(0, end)\<close>, where a negative \<open>end\<close> counts from the end of the array.
\<close>

fun findIndex :: "('a \<Rightarrow> bool) \<Rightarrow> 'a list \<Rightarrow> int" where
  "findIndex P [] = - 1"
| "findIndex P (x # xs) =
     (if P x then 0 else (let i = findIndex P xs in if i < 0 then - 1 else i + 1))"

definition at_index :: "'a list \<Rightarrow> int \<Rightarrow> 'a option" where
  "at_index xs i = (if 0 \<le> i \<and> i < int (length xs) then Some (xs ! nat i) else None)"

definition slice0 :: "'a list \<Rightarrow> int \<Rightarrow> 'a list" where
  "slice0 xs end =
     (let len = int (length xs);
          final = (if end < 0 then max (len + end) 0 else min end len)
      in take (nat final) xs)"

section \<open>The service layer (services/api.ts)\<close>

text \<open>
  Every function of the service layer awaits one HTTP request. The model takes the
  outcome of that request as its first argument: \<open>Inl e\<close> when the request fails,
  \<open>Inr data\<close> with the body of the response otherwise. The parameters of the request
  (the fixed session key 9693, the driver number, the year) only select what the remote
  service answers and are not part of the model.
\<close>

definition countryMap :: "(string \<times> string) list" where
  "countryMap =
     [(''VERSTAPPEN'', ''NLD''), (''NORRIS'', ''GBR''), (''HAMILTON'', ''GBR''),
      (''RUSSELL'', ''GBR''), (''LECLERC'', ''MON''), (''SAINZ'', ''ESP''),
      (''ALONSO'', ''ESP''), (''PIASTRI'', ''AUS''), (''GASLY'', ''FRA''),
      (''OCON'', ''FRA''), (''TSUNODA'', ''JPN''), (''ALBON'', ''THA''),
      (''STROLL'', ''CAN''), (''HULKENBERG'', ''DEU''), (''BEARMAN'', ''GBR''),
      (''ANTONELLI'', ''ITA''), (''COLAPINTO'', ''ARG''), (''BORTOLETO'', ''BRA''),
      (''HADJAR'', ''FRA''), (''LAWSON'', ''NZL'')]"

definition getCountryCodeFallback :: "string \<Rightarrow> string" where
  "getCountryCodeFallback driverName =
     (let lastName = or_else (map_option toUpperCase (pop (split CHR '' '' driverName))) []
      in or_else (map_of countryMap lastName) ''INT'')"

text \<open>
  The arrow function that \<open>fetchDrivers\<close> maps over the fetched records: a copy of the
  record whose \<open>country_code\<close> is the record's own when it is truthy and the fallback
  otherwise.
\<close>

definition normalize :: "F1Driver \<Rightarrow> F1Driver" where
  "normalize driver =
     driver\<lparr>F1Driver.country_code :=
       Some (or_else (F1Driver.country_code driver)
              (getCountryCodeFallback (full_name driver)))\<rparr>"

definition fetchDrivers :: "error + F1Driver list \<Rightarrow> error + F1Driver list" where
  "fetchDrivers response =
     (case response of
        Inl e \<Rightarrow> Inl (Failure ''Failed to fetch F1 drivers data'')
      | Inr data \<Rightarrow> Inr (map normalize data))"

definition fetchDriverById ::
  "error + F1Driver list \<Rightarrow> int \<Rightarrow> error + F1Driver option" where
  "fetchDriverById response driverNumber =
     (case fetchDrivers response of
        Inl e \<Rightarrow> Inr None
      | Inr ds \<Rightarrow> Inr (find (\<lambda>d. F1Driver.driver_number d = driverNumber) ds))"

text \<open>
  \<open>fetchTeams\<close> keeps a \<open>Map\<close> from team name to team, which iterates in insertion
  order: an association list. \<open>has_key\<close>, \<open>map_set\<close> and \<open>modify\<close> are
  \<open>Map.has\<close>, \<open>Map.set\<close> and the mutation of the object that \<open>Map.get\<close> returns.
\<close>

type_synonym teams_map = "(string \<times> F1Team) list"

definition has_key :: "teams_map \<Rightarrow> string \<Rightarrow> bool" where
  "has_key m k = (map_of m k \<noteq> None)"

fun map_set :: "string \<Rightarrow> F1Team \<Rightarrow> teams_map \<Rightarrow> teams_map" where
  "map_set k v [] = [(k, v)]"
| "map_set k v ((k', v') # m) =
     (if k' = k then (k, v) # m else (k', v') # map_set k v m)"

fun modify :: "string \<Rightarrow> (F1Team \<Rightarrow> F1Team) \<Rightarrow> teams_map \<Rightarrow> teams_map" where
  "modify k f [] = []"
| "modify k f ((k', v') # m) =
     (if k' = k then (k', f v') # m else (k', v') # modify k f m)"

definition add_member :: "F1Driver \<Rightarrow> F1Team \<Rightarrow> F1Team" where
  "add_member driver team =
     (let team1 = team\<lparr>drivers := drivers team @ [driver]\<rparr>;
          countryCode = or_else (F1Driver.country_code driver) ''INT''
      in if countryCode \<in> set (country_codes team1) then team1
         else team1\<lparr>country_codes := country_codes team1 @ [countryCode]\<rparr>)"

definition team_key :: "F1Driver \<Rightarrow> string" where
  "team_key driver = or_else (F1Driver.team_name driver) ''Unknown Team''"

text \<open>The body of the \<open>forEach\<close> callback.\<close>

definition forEach_step :: "F1Driver \<Rightarrow> teams_map \<Rightarrow> teams_map" where
  "forEach_step driver teamsMap =
     (let teamName = team_key driver;
          teamsMap1 =
            (if \<not> has_key teamsMap teamName
             then map_set teamName
                    \<lparr>F1Team.team_name = teamName,
                     team_colour = F1Driver.team_colour driver,
                     drivers = [], country_codes = []\<rparr> teamsMap
             else teamsMap)
      in modify teamName (add_member driver) teamsMap1)"

definition teams_of :: "F1Driver list \<Rightarrow> teams_map" where
  "teams_of ds = fold forEach_step ds []"

text \<open>The part of \<open>fetchTeams\<close> after the fetch: the fold and \<open>Array.from(teamsMap.values())\<close>.\<close>

definition aggregateTeams :: "F1Driver list \<Rightarrow> F1Team list" where
  "aggregateTeams ds = map snd (teams_of ds)"

definition fetchTeams :: "error + F1Driver list \<Rightarrow> error + F1Team list" where
  "fetchTeams response =
     (case fetchDrivers response of
        Inl e \<Rightarrow> Inl (Failure ''Failed to fetch F1 teams data'')
      | Inr ds \<Rightarrow> Inr (aggregateTeams ds))"

text \<open>
  A parameter with a default value (\<open>limit: number = 10\<close>) is an \<open>int option\<close>:
  \<open>None\<close> when the caller leaves it out.
\<close>

definition sortedLaps :: "'a F1Lap_scheme list \<Rightarrow> 'a F1Lap_scheme list" where
  "sortedLaps laps = array_sort (\<lambda>a b. lap_number b - lap_number a) laps"

definition fetchDriverLaps ::
  "error + 'a F1Lap_scheme list \<Rightarrow> int option \<Rightarrow> error + 'a F1Lap_scheme list" where
  "fetchDriverLaps response limitArg =
     (let limit = (case limitArg of None \<Rightarrow> 10 | Some l \<Rightarrow> l)
      in case response of
           Inl e \<Rightarrow> Inr []
         | Inr laps \<Rightarrow> Inr (slice0 (sortedLaps laps) limit))"

text \<open>
  \<open>getTime\<close> stands for \<open>new Date(s).getTime()\<close>, the parsing of a time stamp, which
  belongs to the platform.
\<close>

definition fetchRecentSessions ::
  "(string \<Rightarrow> int) \<Rightarrow> error + F1Session list \<Rightarrow> int option \<Rightarrow>
     error + F1Session list" where
  "fetchRecentSessions getTime response limitArg =
     (let limit = (case limitArg of None \<Rightarrow> 5 | Some l \<Rightarrow> l)
      in case response of
           Inl e \<Rightarrow> Inr []
         | Inr sessions \<Rightarrow>
             Inr (slice0
                   (array_sort
                     (\<lambda>a b. getTime (F1Session.date_start b) - getTime (F1Session.date_start a))
                     sessions)
                   limit))"

definition fetchMeetings :: "error + 'm list \<Rightarrow> error + 'm list" where
  "fetchMeetings response = (case response of Inl e \<Rightarrow> Inr [] | Inr data \<Rightarrow> Inr data)"

definition fetchPositions :: "error + 'p list \<Rightarrow> error + 'p list" where
  "fetchPositions response = (case response of Inl e \<Rightarrow> Inr [] | Inr data \<Rightarrow> Inr data)"

text \<open>\<open>response.data || []\<close>: a missing body gives the empty array.\<close>

definition fetchSessionResults :: "error + 'r list option \<Rightarrow> error + 'r list" where
  "fetchSessionResults response =
     (case response of
        Inl e \<Rightarrow> Inr []
      | Inr data \<Rightarrow> Inr (case data of None \<Rightarrow> [] | Some rows \<Rightarrow> rows))"

text \<open>
  The part of \<open>getDriverNavigation\<close> after the fetch: sort by driver number, find the
  current driver, read the neighbours.
\<close>

definition sortedDrivers :: "F1Driver list \<Rightarrow> F1Driver list" where
  "sortedDrivers ds =
     array_sort (\<lambda>a b. F1Driver.driver_number a - F1Driver.driver_number b) ds"

definition navigate :: "F1Driver list \<Rightarrow> int \<Rightarrow> NavigationResult" where
  "navigate ds currentDriverNumber =
     (let currentIndex =
            findIndex (\<lambda>d. F1Driver.driver_number d = currentDriverNumber)
              (sortedDrivers ds)
      in \<lparr>previous =
            (if currentIndex > 0 then at_index (sortedDrivers ds) (currentIndex - 1)
             else None),
          next =
            (if currentIndex < int (length (sortedDrivers ds)) - 1
             then at_index (sortedDrivers ds) (currentIndex + 1) else None)\<rparr>)"

definition getDriverNavigation ::
  "error + F1Driver list \<Rightarrow> int \<Rightarrow> error + NavigationResult" where
  "getDriverNavigation response currentDriverNumber =
     (case fetchDrivers response of
        Inl e \<Rightarrow> Inr \<lparr>previous = None, next = None\<rparr>
      | Inr ds \<Rightarrow> Inr (navigate ds currentDriverNumber))"

section \<open>The list page's filter and sort\<close>

text \<open>
  The value a driver is sorted by is a string or a number, depending on the option.
  \<open>localeCompare\<close> is the platform's locale-aware comparison of two strings and is a
  parameter. When both values are strings the comparison is \<open>localeCompare\<close>;
  otherwise it is the numeric difference, which is \<open>NaN\<close> when a value is not a
  number, and the sort reads \<open>NaN\<close> as 0.
\<close>

datatype sort_value = Str string | Num int

definition sort_value_of :: "DriverSortOption \<Rightarrow> F1Driver \<Rightarrow> sort_value" where
  "sort_value_of opt a =
     (case opt of
        SortName \<Rightarrow> Str (full_name a)
      | SortTeam \<Rightarrow> Str (or_else (F1Driver.team_name a) [])
      | SortDriverNumber \<Rightarrow> Num (F1Driver.driver_number a)
      | SortCountry \<Rightarrow> Str (or_else (F1Driver.country_code a) ''ZZZ''))"

definition compare_drivers ::
  "(string \<Rightarrow> string \<Rightarrow> int) \<Rightarrow> SortConfig \<Rightarrow> F1Driver \<Rightarrow> F1Driver \<Rightarrow> int" where
  "compare_drivers localeCompare sortConfig a b =
     (let comparison =
            (case (sort_value_of (sort_option sortConfig) a,
                   sort_value_of (sort_option sortConfig) b) of
               (Str aValue, Str bValue) \<Rightarrow> localeCompare aValue bValue
             | (Num aValue, Num bValue) \<Rightarrow> aValue - bValue
             | _ \<Rightarrow> 0)
      in if order sortConfig = Asc then comparison else - comparison)"

definition matches :: "string \<Rightarrow> string \<Rightarrow> string \<Rightarrow> F1Driver \<Rightarrow> bool" where
  "matches searchQuery selectedTeam selectedCountry driver =
     (let matchesSearch =
            (includes_str (toLowerCase (full_name driver)) (toLowerCase searchQuery) \<or>
             includes_str (toLowerCase (broadcast_name driver)) (toLowerCase searchQuery) \<or>
             (case F1Driver.team_name driver of
                None \<Rightarrow> False
              | Some t \<Rightarrow> t \<noteq> [] \<and> includes_str (toLowerCase t) (toLowerCase searchQuery)));
          matchesTeam =
            (selectedTeam = [] \<or> F1Driver.team_name driver = Some selectedTeam);
          matchesCountry =
            (selectedCountry = [] \<or>
             or_else (F1Driver.country_code driver) ''INT'' = selectedCountry)
      in matchesSearch \<and> matchesTeam \<and> matchesCountry)"

definition filteredAndSortedDrivers ::
  "(string \<Rightarrow> string \<Rightarrow> int) \<Rightarrow> F1Driver list \<Rightarrow> string \<Rightarrow> string \<Rightarrow> string \<Rightarrow>
     SortConfig \<Rightarrow> F1Driver list" where
  "filteredAndSortedDrivers localeCompare ds searchQuery selectedTeam selectedCountry
     sortConfig =
     array_sort (compare_drivers localeCompare sortConfig)
       (filter (matches searchQuery selectedTeam selectedCountry) ds)"

section \<open>Sample data\<close>

text \<open>
  A driver record from its number, full name, team and country code, and a lap from
  its number; the other fields are fixed. They are the inputs of the examples below.
\<close>

definition sample_driver ::
  "int \<Rightarrow> string \<Rightarrow> string option \<Rightarrow> string option \<Rightarrow> F1Driver" where
  "sample_driver number name team country =
     \<lparr>broadcast_name = name, F1Driver.country_code = country,
      F1Driver.driver_number = number, first_name = [], full_name = name,
      headshot_url = None, last_name = [], F1Driver.meeting_key = 1254,
      name_acronym = [], F1Driver.session_key = 9693, F1Driver.team_colour = None,
      F1Driver.team_name = team\<rparr>"

definition sample_lap :: "int \<Rightarrow> F1Lap" where
  "sample_lap number =
     \<lparr>F1Lap.date_start = [], F1Lap.driver_number = 1, is_pit_out_lap = False,
      lap_number = number, F1Lap.meeting_key = 1254, F1Lap.session_key = 9693\<rparr>"

text \<open>
  A comparison of strings by code unit, to run the list page's sort on: negative,
  zero or positive as \<open>localeCompare\<close> is.
\<close>

fun codeUnitCompare :: "string \<Rightarrow> string \<Rightarrow> int" where
  "codeUnitCompare [] [] = 0"
| "codeUnitCompare [] (y # ys) = - 1"
| "codeUnitCompare (x # xs) [] = 1"
| "codeUnitCompare (x # xs) (y # ys) =
     (if x = y then codeUnitCompare xs ys
      else if (of_char x :: nat) < of_char y then - 1 else 1)"

section \<open>Facts about the built-ins\<close>

lemma or_else_nonempty: "d \<noteq> [] \<Longrightarrow> or_else v d \<noteq> []"
  by (simp add: or_else_def split: option.splits)

section \<open>Facts about sorting and navigation\<close>

lemma insort_by_key:
  assumes "\<And>x y. (cmp x y \<le> 0) = (f x \<le> f y)"
  shows "insort_by cmp x ys = insort_key f x ys"
  using assms by (induction ys) simp_all

lemma array_sort_key:
  assumes "\<And>x y. (cmp x y \<le> 0) = (f x \<le> f y)"
  shows "array_sort cmp xs = sort_key f xs"
proof -
  have "insort_by cmp = insort_key f"
    by (intro ext) (rule insort_by_key [OF assms])
  then show ?thesis
    by (simp add: array_sort_def sort_key_def)
qed

lemma sort_by_driver_number:
  "sortedDrivers ds = sort_key F1Driver.driver_number ds"
  unfolding sortedDrivers_def by (rule array_sort_key) simp

lemma findIndex_absent: "(\<And>x. x \<in> set xs \<Longrightarrow> \<not> P x) \<Longrightarrow> findIndex P xs = - 1"
  by (induction xs) simp_all

lemma findIndex_present:
  "\<exists>x \<in> set xs. P x \<Longrightarrow>
   \<exists>i < length xs. findIndex P xs = int i \<and> P (xs ! i) \<and> (\<forall>j < i. \<not> P (xs ! j))"
proof (induction xs)
  case Nil
  then show ?case by simp
next
  case (Cons x xs)
  show ?case
  proof (cases "P x")
    case True
    then show ?thesis by (intro exI [of _ 0]) simp
  next
    case False
    with Cons.prems have "\<exists>y \<in> set xs. P y" by simp
    from Cons.IH [OF this] obtain i where i: "i < length xs" "findIndex P xs = int i"
      "P (xs ! i)" "\<forall>j < i. \<not> P (xs ! j)" by blast
    have "\<forall>j < Suc i. \<not> P ((x # xs) ! j)"
      using False i(4) by (auto simp: nth_Cons split: nat.splits)
    with False i show ?thesis
      by (intro exI [of _ "Suc i"]) (simp add: Let_def)
  qed
qed

lemma at_index_nat: "i < length xs \<Longrightarrow> at_index xs (int i) = Some (xs ! i)"
  by (simp add: at_index_def)

lemma navigate_unfold:
  "navigate ds n =
     \<lparr>previous =
        (if findIndex (\<lambda>d. F1Driver.driver_number d = n) (sort_key F1Driver.driver_number ds) > 0
         then at_index (sort_key F1Driver.driver_number ds)
                (findIndex (\<lambda>d. F1Driver.driver_number d = n)
                   (sort_key F1Driver.driver_number ds) - 1)
         else None),
      next =
        (if findIndex (\<lambda>d. F1Driver.driver_number d = n) (sort_key F1Driver.driver_number ds)
              < int (length ds) - 1
         then at_index (sort_key F1Driver.driver_number ds)
                (findIndex (\<lambda>d. F1Driver.driver_number d = n)
                   (sort_key F1Driver.driver_number ds) + 1)
         else None)\<rparr>"
  by (simp add: navigate_def Let_def sort_by_driver_number)

lemma navigate_absent:
  assumes "n \<notin> F1Driver.driver_number ` set ds"
  shows "navigate ds n =
    \<lparr>previous = None,
     next = (case sort_key F1Driver.driver_number ds of [] \<Rightarrow> None | d # _ \<Rightarrow> Some d)\<rparr>"
proof -
  let ?srt = "sort_key F1Driver.driver_number ds"
  have idx: "findIndex (\<lambda>d. F1Driver.driver_number d = n) ?srt = - 1"
    using assms by (intro findIndex_absent) auto
  show ?thesis
  proof (cases ?srt)
    case Nil
    then have "length ds = 0" by (metis length_sort list.size(3))
    with Nil idx show ?thesis by (simp add: navigate_unfold)
  next
    case (Cons d rest)
    then have "0 < length ds" by (metis length_sort length_greater_0_conv list.distinct(1))
    with Cons idx show ?thesis by (simp add: navigate_unfold at_index_def)
  qed
qed

lemma navigate_present:
  assumes "n \<in> F1Driver.driver_number ` set ds"
  shows "\<exists>i < length ds.
     F1Driver.driver_number (sort_key F1Driver.driver_number ds ! i) = n \<and>
     (\<forall>j < i. F1Driver.driver_number (sort_key F1Driver.driver_number ds ! j) < n) \<and>
     navigate ds n =
       \<lparr>previous = (if i = 0 then None else Some (sort_key F1Driver.driver_number ds ! (i - 1))),
        next = (if i = length ds - 1 then None
                else Some (sort_key F1Driver.driver_number ds ! (i + 1)))\<rparr>"
proof -
  let ?dn = "F1Driver.driver_number"
  let ?srt = "sort_key ?dn ds"
  have "\<exists>d \<in> set ?srt. ?dn d = n" using assms by auto
  from findIndex_present [OF this] obtain i where i: "i < length ?srt"
    "findIndex (\<lambda>d. ?dn d = n) ?srt = int i" "?dn (?srt ! i) = n"
    "\<forall>j < i. ?dn (?srt ! j) \<noteq> n" by blast
  have len: "i < length ds" using i(1) by simp
  have srt: "sorted (map ?dn ?srt)" by (rule sorted_sort_key)
  have lt: "?dn (?srt ! j) < n" if "j < i" for j
  proof -
    have "map ?dn ?srt ! j \<le> map ?dn ?srt ! i"
      using srt that i(1) by (intro sorted_nth_mono) simp_all
    then have "?dn (?srt ! j) \<le> n" using that i(1) i(3) by simp
    with i(4) that show ?thesis by force
  qed
  have prev: "(if int i > 0 then at_index ?srt (int i - 1) else None) =
      (if i = 0 then None else Some (?srt ! (i - 1)))"
  proof (cases i)
    case 0
    then show ?thesis by simp
  next
    case (Suc k)
    then have "k < length ?srt" using i(1) by simp
    from at_index_nat [OF this] Suc show ?thesis by simp
  qed
  have nxt: "(if int i < int (length ds) - 1 then at_index ?srt (int i + 1) else None) =
      (if i = length ds - 1 then None else Some (?srt ! (i + 1)))"
  proof (cases "i = length ds - 1")
    case True
    then show ?thesis using len by simp
  next
    case False
    with len have "Suc i < length ?srt" by simp
    from at_index_nat [OF this] False len show ?thesis by (simp add: add.commute)
  qed
  have "navigate ds n =
       \<lparr>previous = (if i = 0 then None else Some (?srt ! (i - 1))),
        next = (if i = length ds - 1 then None else Some (?srt ! (i + 1)))\<rparr>"
    unfolding navigate_unfold i(2) prev nxt ..
  with len i(3) lt show ?thesis by (intro exI [of _ i]) simp
qed

lemma navigate_minimum:
  assumes "n \<in> F1Driver.driver_number ` set ds"
    and "\<forall>d \<in> set ds. n \<le> F1Driver.driver_number d"
  shows "previous (navigate ds n) = None"
proof -
  let ?dn = "F1Driver.driver_number"
  let ?srt = "sort_key ?dn ds"
  from navigate_present [OF assms(1)] obtain i where i: "i < length ds"
    "\<forall>j < i. ?dn (?srt ! j) < n"
    "previous (navigate ds n) = (if i = 0 then None else Some (?srt ! (i - 1)))"
    by force
  have "i = 0"
  proof (rule ccontr)
    assume "i \<noteq> 0"
    then have "?dn (?srt ! 0) < n" using i(2) by simp
    moreover have "?srt ! 0 \<in> set ?srt" using i(1) by (intro nth_mem) (cases ds, simp_all)
    ultimately show False using assms(2) by fastforce
  qed
  with i(3) show ?thesis by simp
qed

lemma navigate_maximum:
  assumes "n \<in> F1Driver.driver_number ` set ds"
    and "\<forall>d \<in> set ds. F1Driver.driver_number d \<le> n"
    and "distinct (map F1Driver.driver_number ds)"
  shows "next (navigate ds n) = None"
proof -
  let ?dn = "F1Driver.driver_number"
  let ?srt = "sort_key ?dn ds"
  from navigate_present [OF assms(1)] obtain i where i: "i < length ds"
    "?dn (?srt ! i) = n"
    "next (navigate ds n) = (if i = length ds - 1 then None else Some (?srt ! (i + 1)))"
    by force
  have dist: "distinct (map ?dn ?srt)"
  proof -
    have "mset (map ?dn ?srt) = mset (map ?dn ds)" by simp
    from mset_eq_imp_distinct_iff [OF this] assms(3) show ?thesis by simp
  qed
  have "i = length ds - 1"
  proof (rule ccontr)
    assume ne: "i \<noteq> length ds - 1"
    let ?l = "length ds - 1"
    have l: "?l < length ?srt" "i < ?l" using i(1) ne by simp_all
    have "map ?dn ?srt ! i \<le> map ?dn ?srt ! ?l"
      using l by (intro sorted_nth_mono sorted_sort_key) simp_all
    then have "n \<le> ?dn (?srt ! ?l)" using l i(2) by simp
    moreover have "?srt ! ?l \<in> set ?srt" using l(1) by (intro nth_mem)
    then have "?dn (?srt ! ?l) \<le> n" using assms(2) by simp
    ultimately have eq: "map ?dn ?srt ! ?l = map ?dn ?srt ! i" using l i(2) by simp
    have "?l < length (map ?dn ?srt)" "i < length (map ?dn ?srt)" using l by simp_all
    from nth_eq_iff_index_eq [OF dist this] eq l(2) show False by simp
  qed
  with i(3) show ?thesis by simp
qed


lemma driver_number_normalize [simp]:
  "F1Driver.driver_number (normalize d) = F1Driver.driver_number d"
  by (simp add: normalize_def)

section \<open>Facts about the team aggregation\<close>

lemma map_of_map_set: "map_of (map_set k v m) = (map_of m)(k \<mapsto> v)"
  by (induction m) (auto simp: fun_eq_iff)

lemma keys_map_set_new: "map_of m k = None \<Longrightarrow> map_set k v m = m @ [(k, v)]"
  by (induction m) (auto split: if_splits)

lemma map_of_modify:
  "map_of (modify k f m) = (\<lambda>k'. if k' = k then map_option f (map_of m k) else map_of m k')"
  by (induction m) (auto simp: fun_eq_iff)

lemma keys_modify: "map fst (modify k f m) = map fst m"
  by (induction m) auto

lemma members_modify:
  assumes "map_of m k \<noteq> None" and "\<And>t. mset (drivers (f t)) = mset (drivers t) + {#d#}"
  shows "mset (concat (map (drivers \<circ> snd) (modify k f m))) =
         mset (concat (map (drivers \<circ> snd) m)) + {#d#}"
  using assms(1) by (induction m) (auto simp: assms(2))

lemma drivers_add_member: "drivers (add_member d t) = drivers t @ [d]"
  by (simp add: add_member_def Let_def)

lemma team_name_add_member: "F1Team.team_name (add_member d t) = F1Team.team_name t"
  by (simp add: add_member_def Let_def)

lemma forEach_step_eq:
  "forEach_step d m =
     modify (team_key d) (add_member d)
       (if map_of m (team_key d) = None
        then map_set (team_key d)
               \<lparr>F1Team.team_name = team_key d, team_colour = F1Driver.team_colour d,
                drivers = [], country_codes = []\<rparr> m
        else m)"
  by (simp add: forEach_step_def Let_def has_key_def)

lemma members_forEach_step:
  "mset (concat (map (drivers \<circ> snd) (forEach_step d m))) =
   mset (concat (map (drivers \<circ> snd) m)) + {#d#}"
proof -
  let ?new = "\<lparr>F1Team.team_name = team_key d, team_colour = F1Driver.team_colour d,
                drivers = [], country_codes = []\<rparr>"
  let ?m1 = "if map_of m (team_key d) = None then map_set (team_key d) ?new m else m"
  have present: "map_of ?m1 (team_key d) \<noteq> None"
    by (simp add: map_of_map_set)
  have same: "mset (concat (map (drivers \<circ> snd) ?m1)) = mset (concat (map (drivers \<circ> snd) m))"
    by (simp add: keys_map_set_new)
  have add: "mset (drivers (add_member d t)) = mset (drivers t) + {#d#}" for t
    by (simp add: drivers_add_member)
  show ?thesis
    unfolding forEach_step_eq
    using members_modify [OF present add] same by simp
qed

lemma teams_of_snoc: "teams_of (ds @ [d]) = forEach_step d (teams_of ds)"
  by (simp add: teams_of_def)

lemma members_teams_of: "mset (concat (map (drivers \<circ> snd) (teams_of ds))) = mset ds"
proof (induction ds rule: rev_induct)
  case Nil
  then show ?case by (simp add: teams_of_def)
next
  case (snoc d ds)
  then show ?case by (simp add: teams_of_snoc members_forEach_step del: o_apply)
qed

text \<open>The invariant of the fold.\<close>

lemma keys_forEach_step:
  "map fst (forEach_step d m) =
     (if team_key d \<in> set (map fst m) then map fst m else map fst m @ [team_key d])"
  by (auto simp: forEach_step_eq keys_modify map_of_eq_None_iff keys_map_set_new)

lemma keys_teams_of:
  "distinct (map fst (teams_of ds)) \<and> set (map fst (teams_of ds)) = team_key ` set ds"
proof (induction ds rule: rev_induct)
  case Nil
  then show ?case by (simp add: teams_of_def)
next
  case (snoc d ds)
  then show ?case by (auto simp: teams_of_snoc keys_forEach_step)
qed

lemma map_of_forEach_step:
  "map_of (forEach_step d m) k =
     (if k = team_key d
      then Some (add_member d
             (case map_of m k of
                None \<Rightarrow> \<lparr>F1Team.team_name = team_key d, team_colour = F1Driver.team_colour d,
                          drivers = [], country_codes = []\<rparr>
              | Some t \<Rightarrow> t))
      else map_of m k)"
  by (auto simp: forEach_step_eq map_of_modify map_of_map_set split: option.splits)

lemma entries_teams_of:
  "map_of (teams_of ds) k = Some t \<Longrightarrow>
   F1Team.team_name t = k \<and> drivers t = filter (\<lambda>d. team_key d = k) ds"
proof (induction ds arbitrary: t rule: rev_induct)
  case Nil
  then show ?case by (simp add: teams_of_def)
next
  case (snoc d ds)
  show ?case
  proof (cases "k = team_key d")
    case False
    with snoc show ?thesis by (simp add: teams_of_snoc map_of_forEach_step)
  next
    case True
    show ?thesis
    proof (cases "map_of (teams_of ds) k")
      case None
      then have "k \<notin> team_key ` set ds"
        using keys_teams_of [of ds] by (simp add: map_of_eq_None_iff)
      then have "filter (\<lambda>d. team_key d = k) ds = []"
        by (auto simp: filter_empty_conv)
      with None True snoc.prems show ?thesis
        by (auto simp: teams_of_snoc map_of_forEach_step drivers_add_member
            team_name_add_member)
    next
      case (Some t0)
      from snoc.IH [OF Some] Some True snoc.prems show ?thesis
        by (auto simp: teams_of_snoc map_of_forEach_step drivers_add_member
            team_name_add_member)
    qed
  qed
qed

lemma team_in_aggregate:
  assumes "t \<in> set (aggregateTeams ds)"
  shows "drivers t = filter (\<lambda>d. team_key d = F1Team.team_name t) ds"
proof -
  from assms obtain k where "(k, t) \<in> set (teams_of ds)"
    by (auto simp: aggregateTeams_def)
  then have "map_of (teams_of ds) k = Some t"
    using keys_teams_of [of ds] by simp
  from entries_teams_of [OF this] show ?thesis by simp
qed

lemma team_names_aggregate:
  "map F1Team.team_name (aggregateTeams ds) = map fst (teams_of ds)"
proof -
  have "F1Team.team_name (snd p) = fst p" if "p \<in> set (teams_of ds)" for p
  proof -
    have "map_of (teams_of ds) (fst p) = Some (snd p)"
      using that keys_teams_of [of ds] by simp
    from entries_teams_of [OF this] show ?thesis by simp
  qed
  then show ?thesis by (simp add: aggregateTeams_def)
qed


section \<open>Facts about the list page's filter and sort\<close>

lemma includes_str_empty: "includes_str s []"
  by (cases s) simp_all

lemma matches_no_filter: "matches [] [] [] d"
  by (simp add: matches_def toLowerCase_def includes_str_empty)

lemma compare_by_number:
  "compare_drivers lc \<lparr>sort_option = SortDriverNumber, order = Asc\<rparr> a b =
   F1Driver.driver_number a - F1Driver.driver_number b"
  by (simp add: compare_drivers_def sort_value_of_def)

lemma subseq_insort_by: "subseq zs (insort_by cmp x zs)"
  by (induction zs) auto

lemma set_insort_by: "set (insort_by cmp x zs) = insert x (set zs)"
  by (induction zs) auto

lemma set_array_sort: "set (array_sort cmp xs) = set xs"
  by (induction xs) (simp_all add: array_sort_def set_insort_by)

lemma array_sort_Cons: "array_sort cmp (x # xs) = insort_by cmp x (array_sort cmp xs)"
  by (simp add: array_sort_def)

lemma mset_insort_by: "mset (insort_by cmp x zs) = add_mset x (mset zs)"
  by (induction zs) simp_all

lemma mset_array_sort: "mset (array_sort cmp xs) = mset xs"
  by (induction xs) (simp_all add: array_sort_Cons mset_insort_by, simp add: array_sort_def)

lemma sorted_wrt_insort_by:
  assumes total: "\<And>x y. cmp x y \<le> 0 \<or> cmp y x \<le> 0"
    and trans: "\<And>x y z. cmp x y \<le> 0 \<Longrightarrow> cmp y z \<le> 0 \<Longrightarrow> cmp x z \<le> 0"
    and "sorted_wrt (\<lambda>x y. cmp x y \<le> 0) zs"
  shows "sorted_wrt (\<lambda>x y. cmp x y \<le> 0) (insort_by cmp x zs)"
  using assms(3)
proof (induction zs)
  case Nil
  then show ?case by simp
next
  case (Cons y ys)
  show ?case
  proof (cases "cmp x y \<le> 0")
    case True
    have "cmp x z \<le> 0" if "z \<in> set ys" for z
      using True Cons.prems that trans [of x y z] by simp
    with True Cons.prems show ?thesis by simp
  next
    case False
    then have "cmp y x \<le> 0" using total [of x y] by simp
    with False Cons show ?thesis by (simp add: set_insort_by)
  qed
qed

lemma sorted_wrt_array_sort:
  assumes "\<And>x y. cmp x y \<le> 0 \<or> cmp y x \<le> 0"
    and "\<And>x y z. cmp x y \<le> 0 \<Longrightarrow> cmp y z \<le> 0 \<Longrightarrow> cmp x z \<le> 0"
  shows "sorted_wrt (\<lambda>x y. cmp x y \<le> 0) (array_sort cmp xs)"
proof (induction xs)
  case Nil
  then show ?case by (simp add: array_sort_def)
next
  case (Cons x xs)
  from sorted_wrt_insort_by [of cmp, OF assms Cons] show ?case
    by (simp add: array_sort_Cons)
qed

lemma insort_by_before:
  "b \<in> set zs \<Longrightarrow> cmp a b \<le> 0 \<Longrightarrow> subseq [a, b] (insort_by cmp a zs)"
proof (induction zs)
  case Nil
  then show ?case by simp
next
  case (Cons y ys)
  show ?case
  proof (cases "cmp a y \<le> 0")
    case True
    have "subseq [b] (y # ys)" using Cons.prems(1) by (auto simp: subseq_singleton_left)
    with True show ?thesis by simp
  next
    case False
    have "b \<noteq> y" using False Cons.prems(2) by auto
    with Cons.prems(1) have "b \<in> set ys" by auto
    then have "subseq [a, b] (insort_by cmp a ys)"
      using Cons.prems(2) by (rule Cons.IH)
    then have "subseq [a, b] (y # insort_by cmp a ys)"
      by (rule list_emb_Cons)
    with False show ?thesis by (simp only: insort_by.simps if_False)
  qed
qed

lemma array_sort_before:
  assumes "cmp a b \<le> 0"
  shows "subseq [a, b] (array_sort cmp (us @ a # vs @ b # ws))"
proof (induction us)
  case Nil
  have "b \<in> set (array_sort cmp (vs @ b # ws))" by (simp add: set_array_sort)
  then have "subseq [a, b] (insort_by cmp a (array_sort cmp (vs @ b # ws)))"
    using assms by (rule insort_by_before)
  then show ?case by (simp add: array_sort_Cons)
next
  case (Cons u us)
  have "subseq (array_sort cmp (us @ a # vs @ b # ws))
      (insort_by cmp u (array_sort cmp (us @ a # vs @ b # ws)))"
    by (rule subseq_insort_by)
  with Cons show ?case
    by (simp only: append_Cons array_sort_Cons)
qed

lemma subseq_pair_split:
  assumes "subseq [a, b] zs"
  shows "\<exists>us vs ws. zs = us @ a # vs @ b # ws"
proof -
  from list_emb_ConsD [OF assms] obtain us v r where 1: "zs = us @ v # r" "a = v" "subseq [b] r"
    by blast
  from list_emb_ConsD [OF 1(3)] obtain vs w ws where 2: "r = vs @ w # ws" "b = w"
    by blast
  from 1 2 show ?thesis by blast
qed

lemma filter_insort_by:
  assumes "\<And>y. P x \<Longrightarrow> P y \<Longrightarrow> cmp x y \<le> 0"
  shows "filter P (insort_by cmp x zs) = (if P x then x # filter P zs else filter P zs)"
  using assms by (induction zs) auto

lemma filter_array_sort:
  assumes "\<And>x y. P x \<Longrightarrow> P y \<Longrightarrow> cmp x y \<le> 0"
  shows "filter P (array_sort cmp xs) = filter P xs"
proof (induction xs)
  case Nil
  then show ?case by (simp add: array_sort_def)
next
  case (Cons x xs)
  have "filter P (insort_by cmp x (array_sort cmp xs)) =
      (if P x then x # filter P (array_sort cmp xs) else filter P (array_sort cmp xs))"
    by (rule filter_insort_by) (rule assms)
  with Cons show ?case by (simp add: array_sort_Cons)
qed

lemma compare_drivers_class:
  assumes "\<And>s t u. localeCompare s t = 0 \<Longrightarrow> localeCompare s u = 0 \<Longrightarrow> localeCompare t u = 0"
    and "compare_drivers localeCompare sortConfig a x = 0"
    and "compare_drivers localeCompare sortConfig a y = 0"
  shows "compare_drivers localeCompare sortConfig x y = 0"
proof (cases "sort_option sortConfig")
  case SortDriverNumber
  with assms(2,3) show ?thesis
    by (simp add: compare_drivers_def sort_value_of_def Let_def split: if_splits)
next
  case SortName
  with assms(2,3) have "localeCompare (full_name a) (full_name x) = 0"
    "localeCompare (full_name a) (full_name y) = 0"
    by (simp_all add: compare_drivers_def sort_value_of_def Let_def split: if_splits)
  then have "localeCompare (full_name x) (full_name y) = 0" by (rule assms(1))
  with SortName show ?thesis by (simp add: compare_drivers_def sort_value_of_def Let_def)
next
  case SortTeam
  let ?k = "\<lambda>d. or_else (F1Driver.team_name d) []"
  from SortTeam assms(2,3) have "localeCompare (?k a) (?k x) = 0" "localeCompare (?k a) (?k y) = 0"
    by (simp_all add: compare_drivers_def sort_value_of_def Let_def split: if_splits)
  then have "localeCompare (?k x) (?k y) = 0" by (rule assms(1))
  with SortTeam show ?thesis by (simp add: compare_drivers_def sort_value_of_def Let_def)
next
  case SortCountry
  let ?k = "\<lambda>d. or_else (F1Driver.country_code d) ''ZZZ''"
  from SortCountry assms(2,3) have "localeCompare (?k a) (?k x) = 0"
    "localeCompare (?k a) (?k y) = 0"
    by (simp_all add: compare_drivers_def sort_value_of_def Let_def split: if_splits)
  then have "localeCompare (?k x) (?k y) = 0" by (rule assms(1))
  with SortCountry show ?thesis by (simp add: compare_drivers_def sort_value_of_def Let_def)
qed

lemma codeUnitCompare_zero: "(codeUnitCompare s t = 0) = (s = t)"
  by (induction s t rule: codeUnitCompare.induct) auto

section \<open>Facts about laps and the country-code fallback\<close>

lemma sortedLaps_sort_key: "sortedLaps laps = sort_key (\<lambda>l. - lap_number l) laps"
  unfolding sortedLaps_def by (rule array_sort_key) simp

lemma slice0_nat: "slice0 xs (int k) = take k xs"
  by (simp add: slice0_def Let_def min_def)

lemma split_not_Nil: "split c s \<noteq> []"
  by (induction s) (auto split: list.splits)

lemma countryMap_nonempty: "map_of countryMap k = Some c \<Longrightarrow> c \<noteq> []"
  by (auto simp: countryMap_def split: if_splits)

lemma getCountryCodeFallback_eq:
  "getCountryCodeFallback name =
     (case map_of countryMap (toUpperCase (last (split CHR '' '' name))) of
        None \<Rightarrow> ''INT'' | Some code \<Rightarrow> code)"
proof -
  have "pop (split CHR '' '' name) = Some (last (split CHR '' '' name))"
    using split_not_Nil [of "CHR '' ''" name] by (simp add: pop_def split: list.splits)
  moreover have "or_else (Some t) [] = t" for t
    by (simp add: or_else_def)
  moreover have "or_else (map_of countryMap k) ''INT'' =
      (case map_of countryMap k of None \<Rightarrow> ''INT'' | Some code \<Rightarrow> code)" for k
    using countryMap_nonempty [of k] by (auto simp: or_else_def split: option.splits)
  ultimately show ?thesis by (simp add: getCountryCodeFallback_def)
qed

lemma getCountryCodeFallback_nonempty: "getCountryCodeFallback name \<noteq> []"
  unfolding getCountryCodeFallback_def Let_def by (rule or_else_nonempty) simp

section \<open>Properties of the service layer and the list page\<close>

subsection \<open>Failure of the fetch\<close>

text \<open>
  Claim C1, as amended. When the request fails, \<open>fetchDriverLaps\<close>,
  \<open>fetchRecentSessions\<close>, \<open>fetchMeetings\<close>, \<open>fetchPositions\<close> and
  \<open>fetchSessionResults\<close> return the empty sequence and do not propagate the failure.
  \<open>fetchDrivers\<close> and \<open>fetchTeams\<close> do not: their \<open>catch\<close> block throws a new error,
  "Failed to fetch F1 drivers data" and "Failed to fetch F1 teams data", which their
  caller receives.
\<close>

theorem listing_failure_policy:
  "fetchDriverLaps (Inl e) limit = Inr [] \<and>
   fetchRecentSessions getTime (Inl e) limit = Inr [] \<and>
   fetchMeetings (Inl e) = Inr [] \<and>
   fetchPositions (Inl e) = Inr [] \<and>
   fetchSessionResults (Inl e) = Inr [] \<and>
   fetchDrivers (Inl e) = Inl (Failure ''Failed to fetch F1 drivers data'') \<and>
   fetchTeams (Inl e) = Inl (Failure ''Failed to fetch F1 teams data'')"
  by (simp add: fetchDriverLaps_def fetchRecentSessions_def fetchMeetings_def
      fetchPositions_def fetchSessionResults_def fetchDrivers_def fetchTeams_def)

text \<open>
  The claim as it is written says that every listing operation, \<open>fetchDrivers\<close> and
  \<open>fetchTeams\<close> among them, returns the empty sequence when the request fails with
  \<open>RemoteUnavailable\<close>. Both reject instead.
\<close>

theorem fetchDrivers_failure_counterexample:
  "fetchDrivers (Inl RemoteUnavailable) = Inl (Failure ''Failed to fetch F1 drivers data'') \<and>
   fetchDrivers (Inl RemoteUnavailable) \<noteq> Inr [] \<and>
   fetchTeams (Inl RemoteUnavailable) \<noteq> Inr []"
  by (simp add: fetchDrivers_def fetchTeams_def)

text \<open>
  Claim C2, as amended. \<open>fetchDriverById\<close> never propagates a failure: when the fetch
  fails it returns \<open>null\<close>. When the fetch succeeds it returns \<open>null\<close> exactly when no
  fetched driver has the requested \<open>driver_number\<close>, and otherwise the first fetched
  driver with that number, normalized.
\<close>

theorem fetchDriverById_result:
  "fetchDriverById (Inl e) n = Inr None \<and>
   (\<exists>v. fetchDriverById response n = Inr v) \<and>
   (fetchDriverById (Inr data) n = Inr None) = (n \<notin> F1Driver.driver_number ` set data) \<and>
   fetchDriverById (Inr data) n =
     Inr (map_option normalize (find (\<lambda>d. F1Driver.driver_number d = n) data))"
proof -
  have f: "find (\<lambda>d. F1Driver.driver_number d = n) (map normalize data) =
      map_option normalize (find (\<lambda>d. F1Driver.driver_number d = n) data)"
    by (induction data) simp_all
  have "(find (\<lambda>d. F1Driver.driver_number d = n) data = None) =
      (n \<notin> F1Driver.driver_number ` set data)"
    by (auto simp: find_None_iff)
  with f show ?thesis
    by (cases response) (simp_all add: fetchDriverById_def fetchDrivers_def)
qed

text \<open>
  The claim as it is written says that \<open>fetchDriverById\<close> propagates
  \<open>RemoteUnavailable\<close>. Its \<open>catch\<close> block returns \<open>null\<close>, the value that also stands
  for a driver that is not found.
\<close>

theorem fetchDriverById_failure_counterexample:
  "fetchDriverById (Inl RemoteUnavailable) 44 = Inr None \<and>
   fetchDriverById (Inl RemoteUnavailable) 44 \<noteq> Inl RemoteUnavailable"
  by (simp add: fetchDriverById_def fetchDrivers_def)

subsection \<open>Navigation\<close>

text \<open>
  Claim C3. For every list of drivers and every driver number \<open>n\<close>, \<open>navigate\<close> works on
  \<open>sortedDrivers ds\<close>, a permutation of the drivers in ascending order of
  \<open>driver_number\<close>.
  \<^item> When no driver has the number \<open>n\<close>, \<open>previous\<close> is \<open>null\<close> and \<open>next\<close> is the first
    driver of the sorted list (\<open>null\<close> when the list is empty and has no first driver).
  \<^item> When a driver has the number \<open>n\<close>, the index \<open>i\<close> that is found is the first
    position of \<open>n\<close> in the sorted list, every driver before it has a smaller number,
    \<open>previous\<close> is the driver at \<open>i - 1\<close> (\<open>null\<close> when \<open>i\<close> is the first position) and
    \<open>next\<close> is the driver at \<open>i + 1\<close> (\<open>null\<close> when \<open>i\<close> is the last position).
  \<^item> At the minimum driver number \<open>previous\<close> is \<open>null\<close>. At the maximum driver number
    \<open>next\<close> is \<open>null\<close>, the driver numbers being unique as the data model has them.
\<close>

theorem navigate_neighbours:
  "mset (sortedDrivers ds) = mset ds \<and>
   sorted (map F1Driver.driver_number (sortedDrivers ds)) \<and>
   (n \<notin> F1Driver.driver_number ` set ds \<longrightarrow>
      navigate ds n =
        \<lparr>previous = None,
         next = (case sortedDrivers ds of [] \<Rightarrow> None | d # _ \<Rightarrow> Some d)\<rparr>) \<and>
   (n \<in> F1Driver.driver_number ` set ds \<longrightarrow>
      (\<exists>i < length ds.
         F1Driver.driver_number (sortedDrivers ds ! i) = n \<and>
         (\<forall>j < i. F1Driver.driver_number (sortedDrivers ds ! j) < n) \<and>
         navigate ds n =
           \<lparr>previous = (if i = 0 then None else Some (sortedDrivers ds ! (i - 1))),
            next = (if i = length ds - 1 then None else Some (sortedDrivers ds ! (i + 1)))\<rparr>)) \<and>
   (n \<in> F1Driver.driver_number ` set ds \<and> (\<forall>d \<in> set ds. n \<le> F1Driver.driver_number d) \<longrightarrow>
      previous (navigate ds n) = None) \<and>
   (n \<in> F1Driver.driver_number ` set ds \<and> (\<forall>d \<in> set ds. F1Driver.driver_number d \<le> n) \<and>
    distinct (map F1Driver.driver_number ds) \<longrightarrow>
      next (navigate ds n) = None)"
  unfolding sort_by_driver_number
  using navigate_absent [of n ds] navigate_present [of n ds] navigate_minimum [of n ds]
    navigate_maximum [of n ds]
  by (simp add: sorted_sort_key)

text \<open>
  The drivers 3, 1, 2: at 2 the neighbours are 1 and 3, at 1 there is no previous driver,
  at 3 no next driver, and at the absent number 7 the next driver is driver 1.
\<close>

theorem navigate_neighbours_witness:
  "navigate [sample_driver 3 ''C'' None None, sample_driver 1 ''A'' None None,
             sample_driver 2 ''B'' None None] 2 =
     \<lparr>previous = Some (sample_driver 1 ''A'' None None),
      next = Some (sample_driver 3 ''C'' None None)\<rparr> \<and>
   previous (navigate [sample_driver 3 ''C'' None None, sample_driver 1 ''A'' None None,
             sample_driver 2 ''B'' None None] 1) = None \<and>
   next (navigate [sample_driver 3 ''C'' None None, sample_driver 1 ''A'' None None,
             sample_driver 2 ''B'' None None] 3) = None \<and>
   navigate [sample_driver 3 ''C'' None None, sample_driver 1 ''A'' None None,
             sample_driver 2 ''B'' None None] 7 =
     \<lparr>previous = None, next = Some (sample_driver 1 ''A'' None None)\<rparr>"
proof -
  let ?ds = "[sample_driver 3 ''C'' None None, sample_driver 1 ''A'' None None,
             sample_driver 2 ''B'' None None]"
  have srt: "sortedDrivers ?ds =
      [sample_driver 1 ''A'' None None, sample_driver 2 ''B'' None None,
       sample_driver 3 ''C'' None None]"
    by (simp add: sortedDrivers_def array_sort_def sample_driver_def)
  have here: "2 \<in> F1Driver.driver_number ` set ?ds"
    by (simp add: sample_driver_def)
  from navigate_neighbours [of ?ds 2] here
  obtain i where i: "i < length ?ds" "F1Driver.driver_number (sortedDrivers ?ds ! i) = 2"
    "navigate ?ds 2 =
       \<lparr>previous = (if i = 0 then None else Some (sortedDrivers ?ds ! (i - 1))),
        next = (if i = length ?ds - 1 then None else Some (sortedDrivers ?ds ! (i + 1)))\<rparr>"
    by blast
  from i(1) have "i = 0 \<or> i = 1 \<or> i = 2" by auto
  with i(2) have "i = 1" unfolding srt by (auto simp: sample_driver_def)
  with i(3) have mid: "navigate ?ds 2 =
     \<lparr>previous = Some (sample_driver 1 ''A'' None None),
      next = Some (sample_driver 3 ''C'' None None)\<rparr>"
    by (simp add: srt)
  have lo: "1 \<in> F1Driver.driver_number ` set ?ds \<and>
      (\<forall>d \<in> set ?ds. 1 \<le> F1Driver.driver_number d)"
    by (simp add: sample_driver_def)
  have hi: "3 \<in> F1Driver.driver_number ` set ?ds \<and>
      (\<forall>d \<in> set ?ds. F1Driver.driver_number d \<le> 3) \<and>
      distinct (map F1Driver.driver_number ?ds)"
    by (simp add: sample_driver_def)
  have out: "7 \<notin> F1Driver.driver_number ` set ?ds"
    by (simp add: sample_driver_def)
  from navigate_neighbours [of ?ds 1] lo
  have first: "previous (navigate ?ds 1) = None" by blast
  from navigate_neighbours [of ?ds 3] hi
  have last: "next (navigate ?ds 3) = None" by blast
  from navigate_neighbours [of ?ds 7] out
  have "navigate ?ds 7 =
      \<lparr>previous = None, next = (case sortedDrivers ?ds of [] \<Rightarrow> None | d # _ \<Rightarrow> Some d)\<rparr>"
    by blast
  then have absent: "navigate ?ds 7 =
      \<lparr>previous = None, next = Some (sample_driver 1 ''A'' None None)\<rparr>"
    by (simp add: srt)
  from mid first last absent show ?thesis by blast
qed

text \<open>
  Claim C10. On an empty collection of drivers \<open>navigate\<close> returns \<open>null\<close> for both
  neighbours, whatever the driver number, and so does \<open>getDriverNavigation\<close> when the
  fetch succeeds with no driver.
\<close>

theorem navigate_empty:
  "navigate [] n = \<lparr>previous = None, next = None\<rparr> \<and>
   getDriverNavigation (Inr []) n = Inr \<lparr>previous = None, next = None\<rparr>"
  by (simp add: navigate_def getDriverNavigation_def fetchDrivers_def sortedDrivers_def
      array_sort_def)

subsection \<open>Team aggregation\<close>

text \<open>
  Claim C4. For every list of drivers, the aggregation drops no driver and duplicates
  none. The team key of a driver is \<open>team_key\<close>: its \<open>team_name\<close>, or "Unknown Team" when
  the name is absent or empty. Each team's member list is the list of the input drivers
  with the team's key, in input order, so its length is their number; the member counts sum to
  the length of the input; the members of all teams together are the input drivers,
  each as often as in the input; the team names are distinct, and two different teams
  share no member. The empty input gives no team.
\<close>

theorem aggregateTeams_partition:
  "aggregateTeams [] = [] \<and>
   (\<forall>t \<in> set (aggregateTeams ds).
      drivers t = filter (\<lambda>d. team_key d = F1Team.team_name t) ds \<and>
      length (drivers t) = length (filter (\<lambda>d. team_key d = F1Team.team_name t) ds)) \<and>
   sum_list (map (\<lambda>t. length (drivers t)) (aggregateTeams ds)) = length ds \<and>
   mset (concat (map drivers (aggregateTeams ds))) = mset ds \<and>
   distinct (map F1Team.team_name (aggregateTeams ds)) \<and>
   (\<forall>i < length (aggregateTeams ds). \<forall>j < length (aggregateTeams ds).
      i \<noteq> j \<longrightarrow>
      set (drivers (aggregateTeams ds ! i)) \<inter> set (drivers (aggregateTeams ds ! j)) = {})"
proof -
  let ?ts = "aggregateTeams ds"
  have empty: "aggregateTeams [] = []"
    by (simp add: aggregateTeams_def teams_of_def)
  have members: "\<forall>t \<in> set ?ts.
      drivers t = filter (\<lambda>d. team_key d = F1Team.team_name t) ds \<and>
      length (drivers t) = length (filter (\<lambda>d. team_key d = F1Team.team_name t) ds)"
    using team_in_aggregate by simp
  have all: "mset (concat (map drivers ?ts)) = mset ds"
    using members_teams_of [of ds] by (simp add: aggregateTeams_def comp_def)
  have "size (mset (concat (map drivers ?ts))) = size (mset ds)"
    using all by simp
  then have total: "sum_list (map (\<lambda>t. length (drivers t)) ?ts) = length ds"
    by (simp add: length_concat comp_def)
  have names: "distinct (map F1Team.team_name ?ts)"
    using keys_teams_of [of ds] by (simp add: team_names_aggregate)
  have disjoint: "set (drivers (?ts ! i)) \<inter> set (drivers (?ts ! j)) = {}"
    if "i < length ?ts" "j < length ?ts" "i \<noteq> j" for i j
  proof -
    have "i < length (map F1Team.team_name ?ts)" "j < length (map F1Team.team_name ?ts)"
      using that by simp_all
    from nth_eq_iff_index_eq [OF names this] that(3)
    have "map F1Team.team_name ?ts ! i \<noteq> map F1Team.team_name ?ts ! j"
      by blast
    then have ne: "F1Team.team_name (?ts ! i) \<noteq> F1Team.team_name (?ts ! j)"
      using that by simp
    have "drivers (?ts ! i) = filter (\<lambda>d. team_key d = F1Team.team_name (?ts ! i)) ds"
      "drivers (?ts ! j) = filter (\<lambda>d. team_key d = F1Team.team_name (?ts ! j)) ds"
      using that by (simp_all add: team_in_aggregate)
    with ne show ?thesis by auto
  qed
  from empty members total all names disjoint show ?thesis by blast
qed

text \<open>
  Three drivers of the teams X, Y and of no team: three teams of one member each, the
  third one "Unknown Team".
\<close>

theorem aggregateTeams_partition_witness:
  "aggregateTeams
     [sample_driver 1 ''A'' (Some ''X'') (Some ''INT''),
      sample_driver 44 ''B'' (Some ''Y'') (Some ''GBR''),
      sample_driver 4 ''C'' None (Some ''GBR'')] =
   [\<lparr>F1Team.team_name = ''X'', team_colour = None,
      drivers = [sample_driver 1 ''A'' (Some ''X'') (Some ''INT'')],
      country_codes = [''INT'']\<rparr>,
    \<lparr>F1Team.team_name = ''Y'', team_colour = None,
      drivers = [sample_driver 44 ''B'' (Some ''Y'') (Some ''GBR'')],
      country_codes = [''GBR'']\<rparr>,
    \<lparr>F1Team.team_name = ''Unknown Team'', team_colour = None,
      drivers = [sample_driver 4 ''C'' None (Some ''GBR'')],
      country_codes = [''GBR'']\<rparr>] \<and>
   length (drivers (aggregateTeams
     [sample_driver 1 ''A'' (Some ''X'') (Some ''INT''),
      sample_driver 44 ''B'' (Some ''Y'') (Some ''GBR''),
      sample_driver 4 ''C'' None (Some ''GBR'')] ! 0)) = 1 \<and>
   set (drivers (aggregateTeams
     [sample_driver 1 ''A'' (Some ''X'') (Some ''INT''),
      sample_driver 44 ''B'' (Some ''Y'') (Some ''GBR''),
      sample_driver 4 ''C'' None (Some ''GBR'')] ! 0)) \<inter>
   set (drivers (aggregateTeams
     [sample_driver 1 ''A'' (Some ''X'') (Some ''INT''),
      sample_driver 44 ''B'' (Some ''Y'') (Some ''GBR''),
      sample_driver 4 ''C'' None (Some ''GBR'')] ! 1)) = {}"
proof -
  let ?ds = "[sample_driver 1 ''A'' (Some ''X'') (Some ''INT''),
      sample_driver 44 ''B'' (Some ''Y'') (Some ''GBR''),
      sample_driver 4 ''C'' None (Some ''GBR'')]"
  have run: "aggregateTeams ?ds =
   [\<lparr>F1Team.team_name = ''X'', team_colour = None,
      drivers = [sample_driver 1 ''A'' (Some ''X'') (Some ''INT'')],
      country_codes = [''INT'']\<rparr>,
    \<lparr>F1Team.team_name = ''Y'', team_colour = None,
      drivers = [sample_driver 44 ''B'' (Some ''Y'') (Some ''GBR'')],
      country_codes = [''GBR'']\<rparr>,
    \<lparr>F1Team.team_name = ''Unknown Team'', team_colour = None,
      drivers = [sample_driver 4 ''C'' None (Some ''GBR'')],
      country_codes = [''GBR'']\<rparr>]"
    by (simp add: aggregateTeams_def teams_of_def forEach_step_def has_key_def team_key_def
        or_else_def add_member_def sample_driver_def Let_def)
  have len: "(0::nat) < length (aggregateTeams ?ds)" "(1::nat) < length (aggregateTeams ?ds)"
    "(0::nat) \<noteq> 1"
    unfolding run by simp_all
  have mem: "aggregateTeams ?ds ! 0 \<in> set (aggregateTeams ?ds)"
    using len(1) by (rule nth_mem)
  from aggregateTeams_partition [of ?ds] mem
  have "length (drivers (aggregateTeams ?ds ! 0)) =
      length (filter (\<lambda>d. team_key d = F1Team.team_name (aggregateTeams ?ds ! 0)) ?ds)"
    by blast
  also have "\<dots> = 1"
    unfolding run by (simp add: team_key_def or_else_def sample_driver_def)
  finally have one: "length (drivers (aggregateTeams ?ds ! 0)) = 1" .
  from aggregateTeams_partition [of ?ds] len
  have "set (drivers (aggregateTeams ?ds ! 0)) \<inter> set (drivers (aggregateTeams ?ds ! 1)) = {}"
    by blast
  with run one show ?thesis by blast
qed

subsection \<open>Filter and sort of the list page\<close>

text \<open>
  Claim C5. With an empty search query, no team filter, no country filter and the sort
  configuration \<open>driver_number\<close> ascending, the list page shows every input driver: the
  result is a permutation of the input, sorted in ascending order of \<open>driver_number\<close>
  (the stable sort of the input by that key), whatever \<open>localeCompare\<close> is.
\<close>

theorem filteredAndSortedDrivers_by_number:
  "filteredAndSortedDrivers localeCompare ds [] [] []
       \<lparr>sort_option = SortDriverNumber, order = Asc\<rparr> =
     sort_key F1Driver.driver_number ds \<and>
   mset (filteredAndSortedDrivers localeCompare ds [] [] []
       \<lparr>sort_option = SortDriverNumber, order = Asc\<rparr>) = mset ds \<and>
   sorted (map F1Driver.driver_number
     (filteredAndSortedDrivers localeCompare ds [] [] []
        \<lparr>sort_option = SortDriverNumber, order = Asc\<rparr>))"
proof -
  have "filter (matches [] [] []) ds = ds"
    by (simp add: matches_no_filter)
  moreover have "array_sort (compare_drivers localeCompare
        \<lparr>sort_option = SortDriverNumber, order = Asc\<rparr>) ds =
      sort_key F1Driver.driver_number ds"
    by (rule array_sort_key) (simp add: compare_by_number)
  ultimately have "filteredAndSortedDrivers localeCompare ds [] [] []
       \<lparr>sort_option = SortDriverNumber, order = Asc\<rparr> = sort_key F1Driver.driver_number ds"
    by (simp add: filteredAndSortedDrivers_def)
  then show ?thesis by (simp add: sorted_sort_key)
qed

text \<open>
  Claim C6. The sort of the list page is stable for every sort configuration and every
  \<open>localeCompare\<close>: when a driver \<open>a\<close> stands before a driver \<open>b\<close> among the drivers that
  pass the filter and the selected comparator gives 0 for them, \<open>a\<close> stands before \<open>b\<close>
  in the result. Moreover, when two strings that \<open>localeCompare\<close> finds equal to a third
  are equal to each other, as a consistent comparison has it, the drivers that compare
  equal to any driver \<open>a\<close> stand in the result in exactly the order they have in the
  filtered input. The result is a permutation of the drivers that pass the filter.
\<close>

theorem filteredAndSortedDrivers_stable:
  "(filter (matches searchQuery selectedTeam selectedCountry) ds = us @ a # vs @ b # ws \<and>
    compare_drivers localeCompare sortConfig a b = 0 \<longrightarrow>
      (\<exists>us' vs' ws'.
         filteredAndSortedDrivers localeCompare ds searchQuery selectedTeam selectedCountry
           sortConfig = us' @ a # vs' @ b # ws')) \<and>
   ((\<forall>s t u. localeCompare s t = 0 \<and> localeCompare s u = 0 \<longrightarrow> localeCompare t u = 0) \<longrightarrow>
      filter (\<lambda>x. compare_drivers localeCompare sortConfig a x = 0)
        (filteredAndSortedDrivers localeCompare ds searchQuery selectedTeam selectedCountry
           sortConfig) =
      filter (\<lambda>x. compare_drivers localeCompare sortConfig a x = 0)
        (filter (matches searchQuery selectedTeam selectedCountry) ds)) \<and>
   mset (filteredAndSortedDrivers localeCompare ds searchQuery selectedTeam selectedCountry
           sortConfig) =
     mset (filter (matches searchQuery selectedTeam selectedCountry) ds)"
proof (intro conjI impI)
  show "mset (filteredAndSortedDrivers localeCompare ds searchQuery selectedTeam
           selectedCountry sortConfig) =
     mset (filter (matches searchQuery selectedTeam selectedCountry) ds)"
    by (simp add: filteredAndSortedDrivers_def mset_array_sort)
next
  assume h: "filter (matches searchQuery selectedTeam selectedCountry) ds = us @ a # vs @ b # ws \<and>
    compare_drivers localeCompare sortConfig a b = 0"
  then have "compare_drivers localeCompare sortConfig a b \<le> 0" by simp
  then have "subseq [a, b]
      (array_sort (compare_drivers localeCompare sortConfig) (us @ a # vs @ b # ws))"
    by (rule array_sort_before)
  then show "\<exists>us' vs' ws'.
         filteredAndSortedDrivers localeCompare ds searchQuery selectedTeam selectedCountry
           sortConfig = us' @ a # vs' @ b # ws'"
    using h unfolding filteredAndSortedDrivers_def by (simp add: subseq_pair_split)
next
  assume "\<forall>s t u. localeCompare s t = 0 \<and> localeCompare s u = 0 \<longrightarrow> localeCompare t u = 0"
  then have lc: "\<And>s t u. localeCompare s t = 0 \<Longrightarrow> localeCompare s u = 0 \<Longrightarrow>
      localeCompare t u = 0" by blast
  have "compare_drivers localeCompare sortConfig x y \<le> 0"
    if "compare_drivers localeCompare sortConfig a x = 0"
      "compare_drivers localeCompare sortConfig a y = 0" for x y
    using compare_drivers_class [OF lc that] by simp
  then show "filter (\<lambda>x. compare_drivers localeCompare sortConfig a x = 0)
        (filteredAndSortedDrivers localeCompare ds searchQuery selectedTeam selectedCountry
           sortConfig) =
      filter (\<lambda>x. compare_drivers localeCompare sortConfig a x = 0)
        (filter (matches searchQuery selectedTeam selectedCountry) ds)"
    unfolding filteredAndSortedDrivers_def by (rule filter_array_sort)
qed

text \<open>
  Sorted by team, driver 44 of team Y, first in the input, stays before driver 1 of
  team Y, also with driver 7 of team X between them in the input.
\<close>

theorem filteredAndSortedDrivers_stable_witness:
  "(\<exists>us vs ws.
     filteredAndSortedDrivers codeUnitCompare
       [sample_driver 44 ''B'' (Some ''Y'') None, sample_driver 1 ''A'' (Some ''Y'') None]
       [] [] [] \<lparr>sort_option = SortTeam, order = Asc\<rparr> =
     us @ sample_driver 44 ''B'' (Some ''Y'') None # vs @
       sample_driver 1 ''A'' (Some ''Y'') None # ws) \<and>
   filter (\<lambda>x. compare_drivers codeUnitCompare \<lparr>sort_option = SortTeam, order = Asc\<rparr>
                 (sample_driver 44 ''B'' (Some ''Y'') None) x = 0)
     (filteredAndSortedDrivers codeUnitCompare
       [sample_driver 44 ''B'' (Some ''Y'') None, sample_driver 7 ''C'' (Some ''X'') None,
        sample_driver 1 ''A'' (Some ''Y'') None]
       [] [] [] \<lparr>sort_option = SortTeam, order = Asc\<rparr>) =
   [sample_driver 44 ''B'' (Some ''Y'') None, sample_driver 1 ''A'' (Some ''Y'') None]"
proof -
  let ?a = "sample_driver 44 ''B'' (Some ''Y'') None"
  let ?b = "sample_driver 1 ''A'' (Some ''Y'') None"
  let ?c = "sample_driver 7 ''C'' (Some ''X'') None"
  let ?cfg = "\<lparr>sort_option = SortTeam, order = Asc\<rparr>"
  have input: "filter (matches [] [] []) [?a, ?b] = [] @ ?a # [] @ ?b # []"
    by (simp add: matches_no_filter)
  have equal: "compare_drivers codeUnitCompare ?cfg ?a ?b = 0"
    by (simp add: compare_drivers_def sort_value_of_def sample_driver_def or_else_def)
  from filteredAndSortedDrivers_stable [of "[]" "[]" "[]" "[?a, ?b]" "[]" ?a "[]" ?b "[]"
      codeUnitCompare ?cfg] input equal
  have pair: "\<exists>us vs ws. filteredAndSortedDrivers codeUnitCompare [?a, ?b] [] [] [] ?cfg =
      us @ ?a # vs @ ?b # ws"
    by blast
  have lc: "\<forall>s t u. codeUnitCompare s t = 0 \<and> codeUnitCompare s u = 0 \<longrightarrow>
      codeUnitCompare t u = 0"
    by (simp add: codeUnitCompare_zero)
  from filteredAndSortedDrivers_stable [of "[]" "[]" "[]" "[?a, ?c, ?b]" "[]" ?a "[]" ?b "[]"
      codeUnitCompare ?cfg] lc
  have "filter (\<lambda>x. compare_drivers codeUnitCompare ?cfg ?a x = 0)
        (filteredAndSortedDrivers codeUnitCompare [?a, ?c, ?b] [] [] [] ?cfg) =
      filter (\<lambda>x. compare_drivers codeUnitCompare ?cfg ?a x = 0)
        (filter (matches [] [] []) [?a, ?c, ?b])"
    by blast
  also have "\<dots> = [?a, ?b]"
    by (simp add: matches_no_filter compare_drivers_def sort_value_of_def sample_driver_def
        or_else_def)
  finally show ?thesis using pair by blast
qed

subsection \<open>Laps\<close>

text \<open>
  Claim C7. For every sequence of fetched laps and every limit \<open>k\<close>, a number of laps,
  \<open>fetchDriverLaps\<close> returns the first \<open>k\<close> laps of \<open>sortedLaps laps\<close>, a permutation of
  the laps in descending order of \<open>lap_number\<close>; without a limit it returns the first 10.
  Given the 12 laps numbered 1 to 12 and the limit 10 it returns the laps
  12, 11, ..., 3.
\<close>

theorem fetchDriverLaps_order:
  "mset (sortedLaps laps) = mset laps \<and>
   sorted_wrt (\<lambda>a b. lap_number b \<le> lap_number a) (sortedLaps laps) \<and>
   fetchDriverLaps (Inr laps) (Some (int k)) = Inr (take k (sortedLaps laps)) \<and>
   fetchDriverLaps (Inr laps) None = Inr (take 10 (sortedLaps laps)) \<and>
   fetchDriverLaps (Inr (map sample_lap [1, 2, 3, 4, 5, 6, 7, 8, 9, 10, 11, 12])) (Some 10) =
     Inr (map sample_lap [12, 11, 10, 9, 8, 7, 6, 5, 4, 3])"
proof -
  have "sorted (map (\<lambda>l. - lap_number l) (sortedLaps laps))"
    unfolding sortedLaps_sort_key by (rule sorted_sort_key)
  then have desc: "sorted_wrt (\<lambda>a b. lap_number b \<le> lap_number a) (sortedLaps laps)"
    by (simp add: sorted_map)
  have perm: "mset (sortedLaps laps) = mset laps"
    by (simp add: sortedLaps_sort_key)
  have lim: "fetchDriverLaps (Inr laps) (Some (int k)) = Inr (take k (sortedLaps laps))"
    by (simp add: fetchDriverLaps_def slice0_nat)
  have dflt: "fetchDriverLaps (Inr laps) None = Inr (take 10 (sortedLaps laps))"
    using slice0_nat [of "sortedLaps laps" 10] by (simp add: fetchDriverLaps_def)
  have run: "fetchDriverLaps (Inr (map sample_lap [1, 2, 3, 4, 5, 6, 7, 8, 9, 10, 11, 12])) (Some 10) =
     Inr (map sample_lap [12, 11, 10, 9, 8, 7, 6, 5, 4, 3])"
    by (simp add: fetchDriverLaps_def sortedLaps_def array_sort_def slice0_def sample_lap_def)
  from perm desc lim dflt run show ?thesis by blast
qed

subsection \<open>Normalization of the country code\<close>

text \<open>
  Claim C8. The normalization is idempotent. It replaces a \<open>country_code\<close> that is
  \<open>null\<close> or empty by the fallback for the driver's \<open>full_name\<close>, changing no other
  field, and leaves a driver with a country code as it is. The fallback is the entry of
  the static mapping for the upper-cased last token of the name, or "INT" when the
  mapping has no such entry.
\<close>

theorem normalize_idempotent:
  "normalize (normalize d) = normalize d \<and>
   normalize d =
     (if F1Driver.country_code d = None \<or> F1Driver.country_code d = Some []
      then d\<lparr>F1Driver.country_code := Some (getCountryCodeFallback (full_name d))\<rparr>
      else d) \<and>
   getCountryCodeFallback (full_name d) =
     (case map_of countryMap (toUpperCase (last (split CHR '' '' (full_name d)))) of
        None \<Rightarrow> ''INT'' | Some code \<Rightarrow> code)"
  using getCountryCodeFallback_eq [of "full_name d"]
  by (cases "F1Driver.country_code d") (simp_all add: normalize_def or_else_def)

text \<open>
  Claim C9. Every driver of a successful \<open>fetchDrivers\<close> result has a non-empty
  \<open>country_code\<close>. The result has one driver for each fetched record, in order; where
  the record's \<open>country_code\<close> is \<open>null\<close> or empty the driver's code is the entry of the
  static mapping for the upper-cased last token of \<open>full_name\<close>, or "INT" when the mapping
  has no such entry, and otherwise it is the record's own code.
\<close>

theorem fetchDrivers_country_code:
  assumes "fetchDrivers (Inr data) = Inr ds"
  shows "length ds = length data \<and>
    (\<forall>d \<in> set ds. \<exists>c. F1Driver.country_code d = Some c \<and> c \<noteq> []) \<and>
    (\<forall>i < length data.
       F1Driver.country_code (ds ! i) =
         Some (case F1Driver.country_code (data ! i) of
                 None \<Rightarrow> getCountryCodeFallback (full_name (data ! i))
               | Some c \<Rightarrow>
                   if c = [] then getCountryCodeFallback (full_name (data ! i)) else c)) \<and>
    (\<forall>name.
       getCountryCodeFallback name \<noteq> [] \<and>
       getCountryCodeFallback name =
         (case map_of countryMap (toUpperCase (last (split CHR '' '' name))) of
            None \<Rightarrow> ''INT'' | Some code \<Rightarrow> code))"
proof -
  from assms have ds: "ds = map normalize data" by (simp add: fetchDrivers_def)
  have cc: "F1Driver.country_code (normalize r) =
      Some (case F1Driver.country_code r of
              None \<Rightarrow> getCountryCodeFallback (full_name r)
            | Some c \<Rightarrow> if c = [] then getCountryCodeFallback (full_name r) else c)" for r
    by (cases "F1Driver.country_code r") (simp_all add: normalize_def or_else_def)
  have ne: "\<exists>c. F1Driver.country_code (normalize r) = Some c \<and> c \<noteq> []" for r
    using or_else_nonempty [OF getCountryCodeFallback_nonempty]
    by (simp add: normalize_def)
  have fb: "getCountryCodeFallback name \<noteq> [] \<and>
       getCountryCodeFallback name =
         (case map_of countryMap (toUpperCase (last (split CHR '' '' name))) of
            None \<Rightarrow> ''INT'' | Some code \<Rightarrow> code)" for name
    using getCountryCodeFallback_nonempty [of name] getCountryCodeFallback_eq [of name]
    by simp
  have len: "length ds = length data" using ds by simp
  have each: "\<forall>d \<in> set ds. \<exists>c. F1Driver.country_code d = Some c \<and> c \<noteq> []"
    using ds ne by auto
  have at: "\<forall>i < length data.
       F1Driver.country_code (ds ! i) =
         Some (case F1Driver.country_code (data ! i) of
                 None \<Rightarrow> getCountryCodeFallback (full_name (data ! i))
               | Some c \<Rightarrow>
                   if c = [] then getCountryCodeFallback (full_name (data ! i)) else c)"
    using ds cc by simp
  from len each at fb show ?thesis by blast
qed

text \<open>
  A record without a country code whose surname is in the mapping gets the mapped code,
  a record with a country code keeps it, and a record with an empty code and an unknown
  surname gets "INT".
\<close>

theorem fetchDrivers_country_code_witness:
  "F1Driver.country_code
     (projr (fetchDrivers (Inr [sample_driver 1 ''Max Verstappen'' None None,
                               sample_driver 44 ''Lewis Hamilton'' None (Some ''GBR''),
                               sample_driver 99 ''A'' None (Some [])])) ! 0) = Some ''NLD'' \<and>
   F1Driver.country_code
     (projr (fetchDrivers (Inr [sample_driver 1 ''Max Verstappen'' None None,
                               sample_driver 44 ''Lewis Hamilton'' None (Some ''GBR''),
                               sample_driver 99 ''A'' None (Some [])])) ! 1) = Some ''GBR'' \<and>
   F1Driver.country_code
     (projr (fetchDrivers (Inr [sample_driver 1 ''Max Verstappen'' None None,
                               sample_driver 44 ''Lewis Hamilton'' None (Some ''GBR''),
                               sample_driver 99 ''A'' None (Some [])])) ! 2) = Some ''INT''"
proof -
  let ?data = "[sample_driver 1 ''Max Verstappen'' None None,
                sample_driver 44 ''Lewis Hamilton'' None (Some ''GBR''),
                sample_driver 99 ''A'' None (Some [])]"
  let ?ds = "projr (fetchDrivers (Inr ?data))"
  have run: "fetchDrivers (Inr ?data) = Inr ?ds"
    by (simp add: fetchDrivers_def)
  note facts = fetchDrivers_country_code [OF run]
  have i: "(0::nat) < length ?data" "(1::nat) < length ?data" "(2::nat) < length ?data"
    by simp_all
  from facts have fb: "getCountryCodeFallback name =
         (case map_of countryMap (toUpperCase (last (split CHR '' '' name))) of
            None \<Rightarrow> ''INT'' | Some code \<Rightarrow> code)" for name
    by blast
  from facts i have at:
    "F1Driver.country_code (?ds ! 0) =
       Some (case F1Driver.country_code (?data ! 0) of
               None \<Rightarrow> getCountryCodeFallback (full_name (?data ! 0))
             | Some c \<Rightarrow> if c = [] then getCountryCodeFallback (full_name (?data ! 0)) else c)"
    "F1Driver.country_code (?ds ! 1) =
       Some (case F1Driver.country_code (?data ! 1) of
               None \<Rightarrow> getCountryCodeFallback (full_name (?data ! 1))
             | Some c \<Rightarrow> if c = [] then getCountryCodeFallback (full_name (?data ! 1)) else c)"
    "F1Driver.country_code (?ds ! 2) =
       Some (case F1Driver.country_code (?data ! 2) of
               None \<Rightarrow> getCountryCodeFallback (full_name (?data ! 2))
             | Some c \<Rightarrow> if c = [] then getCountryCodeFallback (full_name (?data ! 2)) else c)"
    by blast+
  have codes: "F1Driver.country_code (?ds ! 0) = Some ''NLD''"
    "F1Driver.country_code (?ds ! 1) = Some ''GBR''"
    "F1Driver.country_code (?ds ! 2) = Some ''INT''"
    unfolding at fb
    by (simp_all add: sample_driver_def toUpperCase_def lower_letters_def upper_letters_def
        countryMap_def)
  from codes show ?thesis by blast
qed

end
